theory Spec2Isabelle
  imports Main "HOL-Library.Word"
begin

section \<open>Strings\<close>

text \<open>
  A JavaScript string is a sequence of UTF-16 code units.  The literals of the source are
  ASCII, so they are written as HOL strings and widened by \<open>js\<close>.
\<close>

type_synonym code_unit = "16 word"
type_synonym jsstring = "code_unit list"

definition js :: "string \<Rightarrow> jsstring" where
  "js s = map (\<lambda>c. of_nat (of_char c)) s"

text \<open>
  \<open>String.prototype.trim\<close> is a builtin of the language: it removes the code units of
  the WhiteSpace and LineTerminator productions from both ends.  All of them lie in the
  basic plane, so one code unit each.
\<close>

definition is_ws :: "code_unit \<Rightarrow> bool" where
  "is_ws c \<longleftrightarrow>
     c = 0x9 \<or> c = 0xA \<or> c = 0xB \<or> c = 0xC \<or> c = 0xD \<or> c = 0x20 \<or> c = 0xA0 \<or>
     c = 0x1680 \<or> (0x2000 \<le> c \<and> c \<le> 0x200A) \<or> c = 0x2028 \<or> c = 0x2029 \<or>
     c = 0x202F \<or> c = 0x205F \<or> c = 0x3000 \<or> c = 0xFEFF"

definition trim :: "jsstring \<Rightarrow> jsstring" where
  "trim s = rev (dropWhile is_ws (rev (dropWhile is_ws s)))"

section \<open>Data model (types.ts)\<close>

datatype Role = user | model

record Attachment =
  data :: jsstring
  mimeType :: jsstring

record Message =
  id_msg :: jsstring
  role_msg :: Role
  text_msg :: jsstring
  timestamp_msg :: nat
  attachment_msg :: "Attachment option"

record ModelOption =
  name :: jsstring
  displayName :: jsstring
  description :: jsstring
  isFastest :: "bool option"

section \<open>The service (geminiService.ts)\<close>

text \<open>
  A content part is an object with two optional fields; a history entry is a role with
  its parts.  The message handed to \<open>sendMessageStream\<close> is either the bare prompt or
  a list of parts.
\<close>

record Part =
  text_part :: "jsstring option"
  inlineData :: "Attachment option"

record Content =
  role :: Role
  parts :: "Part list"

datatype MessageContent = Prompt jsstring | Parts "Part list"

record Request =
  model_name :: jsstring
  systemInstruction :: jsstring
  history :: "Content list"
  message :: MessageContent

text \<open>
  The remote service is outside the program.  A chunk of the stream exposes a text that
  may be absent.  Opening the stream either throws, or yields the chunks that arrive
  before the stream ends, normally or by throwing.
\<close>

type_synonym Chunk = "jsstring option"

datatype StreamEnd = Completed | Raised

datatype StreamResult = OpenFailed | Opened "Chunk list" StreamEnd

definition SYSTEM_INSTRUCTION :: jsstring where
  "SYSTEM_INSTRUCTION = js (''You are GenzAI, a helpful, witty, and professional AI assistant. '' @
     ''You can analyze images if provided. Format your responses with clear paragraphs and Markdown.'')"

definition messageContent :: "jsstring \<Rightarrow> Attachment option \<Rightarrow> MessageContent" where
  "messageContent prompt attachment =
     (case attachment of
        None \<Rightarrow> Prompt prompt
      | Some a \<Rightarrow>
          Parts [\<lparr>text_part = None, inlineData = Some \<lparr>data = data a, mimeType = mimeType a\<rparr>\<rparr>,
                 \<lparr>text_part = Some prompt, inlineData = None\<rparr>])"

definition gemini_request ::
  "jsstring \<Rightarrow> Content list \<Rightarrow> jsstring \<Rightarrow> Attachment option \<Rightarrow> Request" where
  "gemini_request prompt hist modelName attachment =
     \<lparr>model_name = modelName,
      systemInstruction = SYSTEM_INSTRUCTION,
      history = map (\<lambda>h. \<lparr>role = role h, parts = parts h\<rparr>) hist,
      message = messageContent prompt attachment\<rparr>"

text \<open>
  \<open>sendMessageToGeminiStream\<close>: the request goes to the client library \<open>sdk\<close>; an
  error is logged and thrown again, so the caller sees what the library did.
\<close>

definition sendMessageToGeminiStream ::
  "(Request \<Rightarrow> StreamResult) \<Rightarrow> jsstring \<Rightarrow> Content list \<Rightarrow> jsstring \<Rightarrow> Attachment option
     \<Rightarrow> StreamResult" where
  "sendMessageToGeminiStream sdk prompt hist modelName attachment =
     sdk (gemini_request prompt hist modelName attachment)"

section \<open>The application state (App)\<close>

record AppState =
  messages :: "Message list"
  input :: jsstring
  isLoading :: bool
  isListening :: bool
  selectedModel :: ModelOption
  isModelSelectorOpen :: bool
  attachment :: "Attachment option"

definition AVAILABLE_MODELS :: "ModelOption list" where
  "AVAILABLE_MODELS =
     [\<lparr>name = js ''gemini-3-pro-preview'',
       displayName = js ''Gemini Pro'',
       description = js ''Advanced reasoning, coding, and complex tasks.'',
       isFastest = None\<rparr>,
      \<lparr>name = js ''gemini-flash-latest'',
       displayName = js ''Gemini Flash'',
       description = js ''Fastest model for basic text tasks and quick responses.'',
       isFastest = Some True\<rparr>]"

definition initial_state :: AppState where
  "initial_state =
     \<lparr>messages = [], input = [], isLoading = False, isListening = False,
      selectedModel = AVAILABLE_MODELS ! 0, isModelSelectorOpen = False, attachment = None\<rparr>"

subsection \<open>handleSend\<close>

text \<open>
  \<open>generateId()\<close> reads \<open>Math.random()\<close> and \<open>new Date()\<close> reads the clock; what
  they return is not determined by the program, so every call's value is an argument.
  \<open>SendEnv\<close> holds the values of one run of \<open>handleSend\<close> and the client library
  it talks to: the id and time of the user message, of the placeholder, and of the
  error message (the last two are read only in the \<open>catch\<close> block).
\<close>

record SendEnv =
  sdk :: "Request \<Rightarrow> StreamResult"
  userMsgId :: jsstring
  userMsgTime :: nat
  botMsgId :: jsstring
  botMsgTime :: nat
  errorMsgId :: jsstring
  errorMsgTime :: nat

text \<open>The guard at the entry: \<open>(!input.trim() && !attachment) || isLoading\<close>.\<close>

definition blocked :: "AppState \<Rightarrow> bool" where
  "blocked st \<longleftrightarrow> (trim (input st) = [] \<and> attachment st = None) \<or> isLoading st"

text \<open>One entry of \<open>history\<close>: the body of \<open>messages.map(m => ...)\<close>.\<close>

definition history_entry :: "Message \<Rightarrow> Content" where
  "history_entry m =
     \<lparr>role = role_msg m,
      parts =
        (case attachment_msg m of
           None \<Rightarrow> []
         | Some a \<Rightarrow> [\<lparr>text_part = None, inlineData = Some a\<rparr>]) @
        (if text_msg m \<noteq> [] then [\<lparr>text_part = Some (text_msg m), inlineData = None\<rparr>] else [])\<rparr>"

text \<open>
  The state updates from the guard to the call of the service: the input and the pending
  attachment are cleared, the user message is appended, the flag is set, the placeholder
  is appended.
\<close>

definition send_begin :: "jsstring \<Rightarrow> nat \<Rightarrow> jsstring \<Rightarrow> nat \<Rightarrow> AppState \<Rightarrow> AppState" where
  "send_begin uid utime bid btime st =
     (let userText = trim (input st);
          currentAttachment = attachment st;
          st1 = st\<lparr>input := [], attachment := None\<rparr>;
          userMsg = \<lparr>id_msg = uid, role_msg = user, text_msg = userText,
                     timestamp_msg = utime, attachment_msg = currentAttachment\<rparr>;
          st2 = st1\<lparr>messages := messages st1 @ [userMsg]\<rparr>;
          st3 = st2\<lparr>isLoading := True\<rparr>;
          botMsg = \<lparr>id_msg = bid, role_msg = model, text_msg = [],
                    timestamp_msg = btime, attachment_msg = None\<rparr>
      in st3\<lparr>messages := messages st3 @ [botMsg]\<rparr>)"

text \<open>
  The request of this run.  \<open>messages\<close>, \<open>input\<close>, \<open>attachment\<close> and
  \<open>selectedModel\<close> are the values the handler was rendered with, that is the state at
  the call.
\<close>

definition send_request :: "AppState \<Rightarrow> Request" where
  "send_request st =
     gemini_request (trim (input st)) (map history_entry (messages st))
       (name (selectedModel st)) (attachment st)"

text \<open>The body of the \<open>for await\<close> loop for one chunk.\<close>

definition apply_chunk :: "jsstring \<Rightarrow> Chunk \<Rightarrow> AppState \<Rightarrow> AppState" where
  "apply_chunk bid chunk st =
     (case chunk of
        None \<Rightarrow> st
      | Some chunkText \<Rightarrow>
          if chunkText = [] then st
          else st\<lparr>messages :=
                 map (\<lambda>msg. if id_msg msg = bid
                             then msg\<lparr>text_msg := text_msg msg @ chunkText\<rparr>
                             else msg)
                   (messages st)\<rparr>)"

definition ERROR_TEXT :: jsstring where
  "ERROR_TEXT = js (''I'' @ [CHR 0x27] @ ''m having trouble connecting right now. Please try again.'')"

text \<open>The \<open>catch\<close> block and the \<open>finally\<close> block.\<close>

definition append_error :: "jsstring \<Rightarrow> nat \<Rightarrow> AppState \<Rightarrow> AppState" where
  "append_error eid etime st =
     (let errorMsg = \<lparr>id_msg = eid, role_msg = model, text_msg = ERROR_TEXT,
                      timestamp_msg = etime, attachment_msg = None\<rparr>
      in st\<lparr>messages := messages st @ [errorMsg]\<rparr>)"

definition release :: "AppState \<Rightarrow> AppState" where
  "release st = st\<lparr>isLoading := False\<rparr>"

text \<open>The state in which the \<open>try\<close> block is left, and whether it is left by a throw.\<close>

definition stream_chunks :: "StreamResult \<Rightarrow> Chunk list" where
  "stream_chunks r = (case r of OpenFailed \<Rightarrow> [] | Opened chunks e \<Rightarrow> chunks)"

definition stream_failed :: "StreamResult \<Rightarrow> bool" where
  "stream_failed r = (case r of OpenFailed \<Rightarrow> True | Opened chunks e \<Rightarrow> e = Raised)"

definition handleSend :: "SendEnv \<Rightarrow> AppState \<Rightarrow> AppState" where
  "handleSend env st =
     (if blocked st then st
      else
        let st1 = send_begin (userMsgId env) (userMsgTime env) (botMsgId env) (botMsgTime env) st;
            result = sendMessageToGeminiStream (sdk env) (trim (input st))
                       (map history_entry (messages st)) (name (selectedModel st)) (attachment st);
            st2 = fold (apply_chunk (botMsgId env)) (stream_chunks result) st1;
            st3 = (if stream_failed result
                   then append_error (errorMsgId env) (errorMsgTime env) st2
                   else st2)
        in release st3)"

subsection \<open>startNewChat\<close>

definition startNewChat :: "AppState \<Rightarrow> AppState" where
  "startNewChat st = st\<lparr>messages := [], input := [], attachment := None\<rparr>"

section \<open>The running application\<close>

text \<open>
  \<open>handleSend\<close> is asynchronous: it runs up to the call of the service, and then once
  for every chunk that arrives, and the other handlers may run in between.  An event is
  one such uninterrupted piece.  Besides the state of the component, the system remembers
  the \<open>botMsgId\<close> of the run of \<open>handleSend\<close> that waits for its stream.
\<close>

record Sys =
  app :: AppState
  inflight :: "jsstring option"

datatype Event =
    Type jsstring
  | Dictate jsstring
  | Attach Attachment
  | RemoveAttachment
  | SelectModel ModelOption
  | NewChat
  | Send jsstring nat jsstring nat
  | Delta Chunk
  | StreamError jsstring nat
  | StreamDone

text \<open>
  \<open>Type\<close> is \<open>setInput(e.target.value)\<close> (and a click on a suggestion), \<open>Dictate\<close>
  the \<open>onresult\<close> handler of the speech recognition, \<open>Attach\<close> the \<open>onload\<close> handler
  of the file reader.  \<open>Send uid utime bid btime\<close> is \<open>handleSend\<close> up to its first
  \<open>await\<close>; \<open>Delta\<close>, \<open>StreamError\<close> and \<open>StreamDone\<close> are what the stream of the
  waiting run does next, and nothing when no run waits.
\<close>

fun step :: "Event \<Rightarrow> Sys \<Rightarrow> Sys" where
  "step (Type t) s = s\<lparr>app := (app s)\<lparr>input := t\<rparr>\<rparr>"
| "step (Dictate transcript) s =
     s\<lparr>app := (app s)\<lparr>input :=
        input (app s) @ (if input (app s) \<noteq> [] then js '' '' else []) @ transcript\<rparr>\<rparr>"
| "step (Attach a) s = s\<lparr>app := (app s)\<lparr>attachment := Some a\<rparr>\<rparr>"
| "step RemoveAttachment s = s\<lparr>app := (app s)\<lparr>attachment := None\<rparr>\<rparr>"
| "step (SelectModel m) s =
     s\<lparr>app := (app s)\<lparr>selectedModel := m, isModelSelectorOpen := False\<rparr>\<rparr>"
| "step NewChat s = s\<lparr>app := startNewChat (app s)\<rparr>"
| "step (Send uid utime bid btime) s =
     (if blocked (app s) then s
      else \<lparr>app = send_begin uid utime bid btime (app s), inflight = Some bid\<rparr>)"
| "step (Delta chunk) s =
     (case inflight s of
        None \<Rightarrow> s
      | Some bid \<Rightarrow> s\<lparr>app := apply_chunk bid chunk (app s)\<rparr>)"
| "step (StreamError eid etime) s =
     (case inflight s of
        None \<Rightarrow> s
      | Some bid \<Rightarrow> \<lparr>app = release (append_error eid etime (app s)), inflight = None\<rparr>)"
| "step StreamDone s =
     (case inflight s of
        None \<Rightarrow> s
      | Some bid \<Rightarrow> \<lparr>app = release (app s), inflight = None\<rparr>)"

definition run :: "Event list \<Rightarrow> Sys \<Rightarrow> Sys" where
  "run evs s = fold step evs s"

definition initial_sys :: Sys where
  "initial_sys = \<lparr>app = initial_state, inflight = None\<rparr>"

text \<open>The events of one whole run of \<open>handleSend\<close> whose stream does \<open>r\<close>.\<close>

definition send_events :: "SendEnv \<Rightarrow> StreamResult \<Rightarrow> Event list" where
  "send_events env r =
     Send (userMsgId env) (userMsgTime env) (botMsgId env) (botMsgTime env) #
     map Delta (stream_chunks r) @
     [if stream_failed r then StreamError (errorMsgId env) (errorMsgTime env) else StreamDone]"

subsection \<open>Properties of states and of runs\<close>

definition ids :: "AppState \<Rightarrow> jsstring list" where
  "ids st = map id_msg (messages st)"

definition user_ids :: "AppState \<Rightarrow> jsstring list" where
  "user_ids st = map id_msg (filter (\<lambda>m. role_msg m = user) (messages st))"

text \<open>The ids that \<open>generateId()\<close> returns during an event.\<close>

fun drawn :: "Event \<Rightarrow> Sys \<Rightarrow> jsstring list" where
  "drawn (Send uid utime bid btime) s = (if blocked (app s) then [] else [uid, bid])"
| "drawn (StreamError eid etime) s = (if inflight s = None then [] else [eid])"
| "drawn e s = []"

text \<open>
  \<open>fresh_ids evs s\<close>: along the run of \<open>evs\<close> from \<open>s\<close>, every id that is generated
  differs from the ids in the store at that moment and from the other id generated by
  the same event.
\<close>

fun fresh_ids :: "Event list \<Rightarrow> Sys \<Rightarrow> bool" where
  "fresh_ids [] s = True"
| "fresh_ids (e # es) s =
     (distinct (drawn e s) \<and> (\<forall>i \<in> set (drawn e s). i \<notin> set (ids (app s))) \<and>
      fresh_ids es (step e s))"

text \<open>
  \<open>placeholder_unshared evs s\<close>: along the run, the id generated for a placeholder is
  never the id of a user message, the one just appended included.
\<close>

fun unshared :: "Event \<Rightarrow> Sys \<Rightarrow> bool" where
  "unshared (Send uid utime bid btime) s \<longleftrightarrow>
     blocked (app s) \<or> (bid \<noteq> uid \<and> bid \<notin> set (user_ids (app s)))"
| "unshared e s \<longleftrightarrow> True"

fun placeholder_unshared :: "Event list \<Rightarrow> Sys \<Rightarrow> bool" where
  "placeholder_unshared [] s = True"
| "placeholder_unshared (e # es) s = (unshared e s \<and> placeholder_unshared es (step e s))"

definition user_has_content :: "AppState \<Rightarrow> bool" where
  "user_has_content st \<longleftrightarrow>
     (\<forall>m \<in> set (messages st). role_msg m = user \<longrightarrow> text_msg m \<noteq> [] \<or> attachment_msg m \<noteq> None)"

definition no_outer_ws :: "jsstring \<Rightarrow> bool" where
  "no_outer_ws t \<longleftrightarrow> t = [] \<or> (\<not> is_ws (hd t) \<and> \<not> is_ws (last t))"

definition user_trimmed :: "AppState \<Rightarrow> bool" where
  "user_trimmed st \<longleftrightarrow>
     (\<forall>m \<in> set (messages st). role_msg m = user \<longrightarrow>
        trim (text_msg m) = text_msg m \<and> no_outer_ws (text_msg m))"

text \<open>
  What the store shows of the user's turns: the text and the attachment of every user
  message, in order.  And what was sent: the trimmed input and the pending attachment at
  every send that passed the guard since the last new conversation, computed from the
  events alone.
\<close>

definition user_view :: "AppState \<Rightarrow> (jsstring \<times> Attachment option) list" where
  "user_view st =
     map (\<lambda>m. (text_msg m, attachment_msg m)) (filter (\<lambda>m. role_msg m = user) (messages st))"

fun sent_step ::
  "Event \<Rightarrow> Sys \<Rightarrow> (jsstring \<times> Attachment option) list \<Rightarrow> (jsstring \<times> Attachment option) list" where
  "sent_step NewChat s acc = []"
| "sent_step (Send uid utime bid btime) s acc =
     (if blocked (app s) then acc else acc @ [(trim (input (app s)), attachment (app s))])"
| "sent_step e s acc = acc"

fun sent_inputs ::
  "Event list \<Rightarrow> Sys \<Rightarrow> (jsstring \<times> Attachment option) list \<Rightarrow> (jsstring \<times> Attachment option) list" where
  "sent_inputs [] s acc = acc"
| "sent_inputs (e # es) s acc = sent_inputs es (step e s) (sent_step e s acc)"

text \<open>A waiting run has set the busy flag, and its placeholder id is no user message's.\<close>

definition session_ok :: "Sys \<Rightarrow> bool" where
  "session_ok s \<longleftrightarrow>
     (\<forall>bid. inflight s = Some bid \<longrightarrow> isLoading (app s) \<and> bid \<notin> set (user_ids (app s)))"

text \<open>
  The state in which the \<open>try\<close> block of a run is left: after the prologue and after
  every chunk that arrived.
\<close>

definition at_stream_end :: "SendEnv \<Rightarrow> AppState \<Rightarrow> AppState" where
  "at_stream_end env st =
     fold (apply_chunk (botMsgId env)) (stream_chunks (sdk env (send_request st)))
       (send_begin (userMsgId env) (userMsgTime env) (botMsgId env) (botMsgTime env) st)"

text \<open>The text of a chunk, empty when absent; and the update of one message by a text.\<close>

definition chunk_text :: "Chunk \<Rightarrow> jsstring" where
  "chunk_text c = (case c of None \<Rightarrow> [] | Some t \<Rightarrow> t)"

definition append_text :: "jsstring \<Rightarrow> jsstring \<Rightarrow> Message \<Rightarrow> Message" where
  "append_text bid t m = (if id_msg m = bid then m\<lparr>text_msg := text_msg m @ t\<rparr> else m)"

subsection \<open>Example inputs\<close>

text \<open>
  An environment whose stream does \<open>r\<close> whatever the request, with fixed ids and times;
  and the state after the text \<open>t\<close> was typed into the fresh application.
\<close>

definition example_env :: "StreamResult \<Rightarrow> SendEnv" where
  "example_env r =
     \<lparr>sdk = (\<lambda>req. r), userMsgId = js ''u1'', userMsgTime = 1, botMsgId = js ''b1'',
      botMsgTime = 2, errorMsgId = js ''e1'', errorMsgTime = 3\<rparr>"

definition typed :: "string \<Rightarrow> AppState" where
  "typed t = initial_state\<lparr>input := js t\<rparr>"

definition example_image :: Attachment where
  "example_image = \<lparr>data = js ''iVBORw0KGgo='', mimeType = js ''image/png''\<rparr>"

definition example_partial :: StreamResult where
  "example_partial = Opened [Some (js ''Hel'')] Raised"

definition example_streaming :: AppState where
  "example_streaming = send_begin (js ''u1'') 1 (js ''b1'') 2 (typed ''Hi'')"

definition example_events :: "Event list" where
  "example_events =
     [Type (js ''Hi''), Send (js ''u1'') 1 (js ''b1'') 2, Delta (Some (js ''Hel'')),
      StreamError (js ''e1'') 3]"

text \<open>
  States and runs that the application reaches: an attachment is pending and the input is
  blank; a first exchange with an image is over and a second text is typed; a send whose
  input has white space around it; a send whose two generated ids coincide.
\<close>

definition example_attachment_only :: AppState where
  "example_attachment_only = app (run [Attach example_image, Type (js ''  '')] initial_sys)"

definition example_second_turn :: AppState where
  "example_second_turn =
     app (run [Attach example_image, Type (js ''Hi''), Send (js ''u1'') 1 (js ''b1'') 2,
               Delta (Some (js ''Hello'')), StreamDone, Type (js ''More'')] initial_sys)"

definition example_padded_events :: "Event list" where
  "example_padded_events =
     [Type (js '' Hi  ''), Send (js ''u1'') 1 (js ''b1'') 2, Delta (Some (js '' ok '')), StreamDone]"

definition example_collision_events :: "Event list" where
  "example_collision_events =
     [Type (js ''Hi''), Send (js ''a'') 1 (js ''a'') 2, Delta (Some (js '' ''))]"

section \<open>Basic facts\<close>

lemma handleSend_sdk:
  "sendMessageToGeminiStream f (trim (input st)) (map history_entry (messages st))
     (name (selectedModel st)) (attachment st) = f (send_request st)"
  by (simp add: sendMessageToGeminiStream_def send_request_def)

lemma handleSend_unblocked:
  "\<not> blocked st \<Longrightarrow>
   handleSend env st =
     release (if stream_failed (sdk env (send_request st))
              then append_error (errorMsgId env) (errorMsgTime env) (at_stream_end env st)
              else at_stream_end env st)"
  by (simp add: handleSend_def Let_def handleSend_sdk at_stream_end_def)

lemma messages_send_begin:
  "messages (send_begin uid ut bid bt st) =
     messages st @
     [\<lparr>id_msg = uid, role_msg = user, text_msg = trim (input st), timestamp_msg = ut,
       attachment_msg = attachment st\<rparr>,
      \<lparr>id_msg = bid, role_msg = model, text_msg = [], timestamp_msg = bt, attachment_msg = None\<rparr>]"
  by (simp add: send_begin_def Let_def)

lemma append_text_Nil: "append_text bid [] m = m"
  by (simp add: append_text_def)

lemma map_append_text_Nil: "map (append_text bid []) ms = ms"
  by (induction ms) (simp_all add: append_text_Nil)

lemma append_text_append:
  "append_text bid t2 (append_text bid t1 m) = append_text bid (t1 @ t2) m"
  by (simp add: append_text_def)

lemma chunk_text_Some: "chunk_text (Some t) = t"
  by (simp add: chunk_text_def)

lemma apply_chunk_eq:
  "apply_chunk bid c st = st\<lparr>messages := map (append_text bid (chunk_text c)) (messages st)\<rparr>"
proof (cases c)
  case None
  then show ?thesis by (simp add: apply_chunk_def chunk_text_def map_append_text_Nil)
next
  case (Some t)
  show ?thesis
  proof (cases "t = []")
    case True
    with Some show ?thesis by (simp add: apply_chunk_def chunk_text_def map_append_text_Nil)
  next
    case False
    have "(\<lambda>msg. if id_msg msg = bid then msg\<lparr>text_msg := text_msg msg @ t\<rparr> else msg) =
          append_text bid t"
      by (rule ext) (simp add: append_text_def)
    with Some False show ?thesis by (simp add: apply_chunk_def chunk_text_def)
  qed
qed

lemma fold_apply_chunk_eq:
  "fold (apply_chunk bid) cs st =
     st\<lparr>messages := map (append_text bid (concat (map chunk_text cs))) (messages st)\<rparr>"
proof (induction cs arbitrary: st)
  case Nil
  show ?case by (simp add: map_append_text_Nil)
next
  case (Cons c cs)
  have "fold (apply_chunk bid) (c # cs) st = fold (apply_chunk bid) cs (apply_chunk bid c st)"
    by simp
  also have "\<dots> = (apply_chunk bid c st)\<lparr>messages :=
      map (append_text bid (concat (map chunk_text cs))) (messages (apply_chunk bid c st))\<rparr>"
    by (rule Cons.IH)
  also have "\<dots> = st\<lparr>messages :=
      map (append_text bid (concat (map chunk_text (c # cs)))) (messages st)\<rparr>"
    by (simp add: apply_chunk_eq append_text_append o_def)
  finally show ?case .
qed

lemma fold_fragments:
  "fold (apply_chunk bid) (map Some frags) st = apply_chunk bid (Some (concat frags)) st"
proof -
  have ct: "map chunk_text (map Some frags) = frags"
    by (induction frags) (simp_all add: chunk_text_Some)
  show ?thesis
    by (simp only: fold_apply_chunk_eq apply_chunk_eq ct chunk_text_Some)
qed

lemma typed_Hi_not_blocked: "\<not> blocked (typed ''Hi'')"
  by (simp add: blocked_def typed_def initial_state_def trim_def js_def is_ws_def)

lemma messages_example_streaming:
  "messages example_streaming =
     [\<lparr>id_msg = js ''u1'', role_msg = user, text_msg = js ''Hi'', timestamp_msg = 1,
       attachment_msg = None\<rparr>,
      \<lparr>id_msg = js ''b1'', role_msg = model, text_msg = [], timestamp_msg = 2,
       attachment_msg = None\<rparr>]"
  by (simp add: example_streaming_def messages_send_begin typed_def initial_state_def
      trim_def js_def is_ws_def)

subsection \<open>Trimming\<close>

lemma dropWhile_unchanged: "xs = [] \<or> \<not> P (hd xs) \<Longrightarrow> dropWhile P xs = xs"
  by (cases xs) auto

lemma trim_fixed: "no_outer_ws t \<Longrightarrow> trim t = t"
proof (cases "t = []")
  case True
  then show ?thesis by (simp add: trim_def)
next
  case False
  assume "no_outer_ws t"
  with False have h: "\<not> is_ws (hd t)" and l: "\<not> is_ws (last t)"
    by (simp_all add: no_outer_ws_def)
  from h have a: "dropWhile is_ws t = t"
    by (simp add: dropWhile_unchanged)
  from False l have "\<not> is_ws (hd (rev t))"
    by (simp add: hd_rev)
  then have b: "dropWhile is_ws (rev t) = rev t"
    by (simp add: dropWhile_unchanged)
  show ?thesis by (simp add: trim_def a b)
qed

lemma no_outer_ws_trim: "no_outer_ws (trim s)"
proof -
  define d where "d = dropWhile is_ws s"
  define e where "e = dropWhile is_ws (rev d)"
  have t: "trim s = rev e"
    by (simp add: trim_def d_def e_def)
  show ?thesis
  proof (cases "e = []")
    case True
    with t show ?thesis by (simp add: no_outer_ws_def)
  next
    case False
    then have he: "\<not> is_ws (hd e)"
      unfolding e_def by (rule hd_dropWhile)
    from False have dne: "d \<noteq> []"
      by (auto simp: e_def)
    then have hd_d: "\<not> is_ws (hd d)"
      unfolding d_def by (rule hd_dropWhile)
    have "rev d = takeWhile is_ws (rev d) @ e"
      by (simp add: e_def)
    with False have "last (rev d) = last e"
      by (metis last_appendR)
    with dne have le: "last e = hd d"
      by (simp add: last_rev)
    from False he hd_d le t show ?thesis
      by (simp add: no_outer_ws_def hd_rev last_rev)
  qed
qed

lemma trim_idem: "trim (trim s) = trim s"
  by (rule trim_fixed) (rule no_outer_ws_trim)

subsection \<open>Ids and user messages along a run\<close>

lemma ids_apply_chunk: "ids (apply_chunk bid c st) = ids st"
  by (simp add: ids_def apply_chunk_eq append_text_def o_def cong: map_cong)

lemma ids_step:
  "ids (app (step e s)) = (if e = NewChat then [] else ids (app s) @ drawn e s)"
  by (cases e)
    (auto simp: ids_def startNewChat_def messages_send_begin append_error_def release_def
       ids_apply_chunk [unfolded ids_def] split: option.splits)

lemma role_append_text: "role_msg (append_text bid t m) = role_msg m"
  by (simp add: append_text_def)

lemma id_append_text: "id_msg (append_text bid t m) = id_msg m"
  by (simp add: append_text_def)

lemma user_ids_apply_chunk: "user_ids (apply_chunk bid c st) = user_ids st"
  by (simp add: user_ids_def apply_chunk_eq filter_map o_def role_append_text id_append_text)

lemma user_has_content_apply_chunk:
  "user_has_content st \<Longrightarrow> user_has_content (apply_chunk bid c st)"
  by (auto simp: user_has_content_def apply_chunk_eq append_text_def split: if_splits)

lemma user_has_content_step:
  "user_has_content (app s) \<Longrightarrow> user_has_content (app (step e s))"
proof (cases e)
  case (Send uid utime bid btime)
  assume "user_has_content (app s)"
  then show ?thesis
    by (auto simp: Send user_has_content_def messages_send_begin blocked_def)
next
  case (Delta c)
  assume "user_has_content (app s)"
  then show ?thesis
    by (simp add: Delta user_has_content_apply_chunk split: option.splits)
qed (auto simp: user_has_content_def startNewChat_def append_error_def release_def
       split: option.splits)

lemma user_has_content_run:
  "user_has_content (app s) \<Longrightarrow> user_has_content (app (run evs s))"
proof (induction evs arbitrary: s)
  case Nil
  then show ?case by (simp add: run_def)
next
  case (Cons e es)
  from Cons.prems have "user_has_content (app (step e s))"
    by (rule user_has_content_step)
  then have "user_has_content (app (run es (step e s)))"
    by (rule Cons.IH)
  then show ?case by (simp add: run_def)
qed

lemma user_trimmed_apply_chunk:
  assumes "user_trimmed st" and "bid \<notin> set (user_ids st)"
  shows "user_trimmed (apply_chunk bid c st)"
proof -
  have "append_text bid (chunk_text c) m = m"
    if "m \<in> set (messages st)" and "role_msg m = user" for m
  proof -
    from that have "id_msg m \<in> set (user_ids st)"
      by (auto simp: user_ids_def)
    with assms(2) have "id_msg m \<noteq> bid" by auto
    then show ?thesis by (simp add: append_text_def)
  qed
  with assms(1) show ?thesis
    by (auto simp: user_trimmed_def apply_chunk_eq role_append_text)
qed

lemma user_trimmed_send_begin:
  "user_trimmed st \<Longrightarrow> user_trimmed (send_begin uid ut bid bt st)"
  by (auto simp: user_trimmed_def messages_send_begin trim_idem no_outer_ws_trim)

lemma trimmed_step:
  assumes "user_trimmed (app s)" and "session_ok s" and "unshared e s"
  shows "user_trimmed (app (step e s)) \<and> session_ok (step e s)"
proof (cases e)
  case (Send uid utime bid btime)
  show ?thesis
  proof (cases "blocked (app s)")
    case True
    with assms Send show ?thesis by simp
  next
    case False
    with assms(3) Send have f: "bid \<noteq> uid" "bid \<notin> set (user_ids (app s))"
      by simp_all
    have "user_ids (send_begin uid utime bid btime (app s)) = user_ids (app s) @ [uid]"
      by (simp add: user_ids_def messages_send_begin)
    moreover have "isLoading (send_begin uid utime bid btime (app s))"
      by (simp add: send_begin_def Let_def)
    ultimately have "session_ok (step e s)"
      using False f by (simp add: Send session_ok_def)
    with assms(1) False show ?thesis
      by (simp add: Send user_trimmed_send_begin)
  qed
next
  case (Delta c)
  show ?thesis
  proof (cases "inflight s")
    case None
    with assms Delta show ?thesis by simp
  next
    case (Some bid)
    with assms(2) have ok: "isLoading (app s)" "bid \<notin> set (user_ids (app s))"
      by (simp_all add: session_ok_def)
    from assms(1) ok(2) have "user_trimmed (apply_chunk bid c (app s))"
      by (rule user_trimmed_apply_chunk)
    moreover have "isLoading (apply_chunk bid c (app s)) = isLoading (app s)"
      by (simp add: apply_chunk_eq)
    ultimately show ?thesis
      using ok Some by (simp add: Delta session_ok_def user_ids_apply_chunk)
  qed
next
  case NewChat
  with assms show ?thesis
    by (simp add: user_trimmed_def session_ok_def startNewChat_def user_ids_def)
next
  case (StreamError eid etime)
  with assms show ?thesis
    by (auto simp: user_trimmed_def session_ok_def append_error_def release_def
        split: option.splits)
next
  case StreamDone
  with assms show ?thesis
    by (auto simp: user_trimmed_def session_ok_def release_def split: option.splits)
qed (use assms in \<open>simp_all add: user_trimmed_def session_ok_def user_ids_def\<close>)

lemma trimmed_run:
  "user_trimmed (app s) \<Longrightarrow> session_ok s \<Longrightarrow> placeholder_unshared evs s \<Longrightarrow>
   user_trimmed (app (run evs s)) \<and> session_ok (run evs s)"
proof (induction evs arbitrary: s)
  case Nil
  then show ?case by (simp add: run_def)
next
  case (Cons e es)
  from Cons.prems have u: "unshared e s" and r: "placeholder_unshared es (step e s)"
    by simp_all
  from Cons.prems(1,2) u have "user_trimmed (app (step e s)) \<and> session_ok (step e s)"
    by (rule trimmed_step)
  with r have "user_trimmed (app (run es (step e s))) \<and> session_ok (run es (step e s))"
    by (simp add: Cons.IH)
  then show ?case by (simp add: run_def)
qed

lemma initial_sys_ok:
  "user_has_content (app initial_sys) \<and> user_trimmed (app initial_sys) \<and> session_ok initial_sys \<and>
   distinct (ids (app initial_sys))"
  by (simp add: initial_sys_def initial_state_def user_has_content_def user_trimmed_def
      session_ok_def ids_def)

subsection \<open>A whole run of handleSend as events\<close>

lemma run_append: "run (xs @ ys) s = run ys (run xs s)"
  by (simp add: run_def)

lemma run_Cons: "run (e # es) s = run es (step e s)"
  by (simp add: run_def)

lemma run_deltas_idle: "inflight s = None \<Longrightarrow> run (map Delta cs) s = s"
  by (induction cs) (simp_all add: run_def)

lemma run_deltas_waiting:
  "run (map Delta cs) \<lparr>app = a, inflight = Some bid\<rparr> =
     \<lparr>app = fold (apply_chunk bid) cs a, inflight = Some bid\<rparr>"
  by (induction cs arbitrary: a) (simp_all add: run_def)

lemma handleSend_as_run:
  "handleSend env st =
     app (run (send_events env (sdk env (send_request st))) \<lparr>app = st, inflight = None\<rparr>)"
proof (cases "blocked st")
  case True
  then show ?thesis
    by (simp add: handleSend_def send_events_def run_Cons run_append run_deltas_idle)
      (simp add: run_def)
next
  case False
  then show ?thesis
    by (simp add: handleSend_unblocked send_events_def run_Cons run_append run_deltas_waiting
        at_stream_end_def)
      (simp add: run_def)
qed

text \<open>
  The scenario of the specification: from the fresh application, \<open>Hi\<close> is sent and the
  fragments \<open>He\<close> and \<open>llo!\<close> arrive.
\<close>

lemma scenario_Hi_Hello:
  "map (\<lambda>m. (role_msg m, text_msg m))
     (messages (handleSend (example_env (Opened [Some (js ''He''), Some (js ''llo!'')] Completed))
        (typed ''Hi''))) = [(user, js ''Hi''), (model, js ''Hello!'')] \<and>
   \<not> isLoading (handleSend (example_env (Opened [Some (js ''He''), Some (js ''llo!'')] Completed))
        (typed ''Hi''))"
  by (simp only: handleSend_unblocked [OF typed_Hi_not_blocked])
    (simp add: at_stream_end_def example_env_def stream_failed_def stream_chunks_def
      release_def apply_chunk_eq messages_send_begin append_text_def chunk_text_def
      typed_def initial_state_def trim_def js_def is_ws_def)

lemma run_example_events:
  "messages (app (run example_events initial_sys)) =
     [\<lparr>id_msg = js ''u1'', role_msg = user, text_msg = js ''Hi'', timestamp_msg = 1,
       attachment_msg = None\<rparr>,
      \<lparr>id_msg = js ''b1'', role_msg = model, text_msg = js ''Hel'', timestamp_msg = 2,
       attachment_msg = None\<rparr>,
      \<lparr>id_msg = js ''e1'', role_msg = model, text_msg = ERROR_TEXT, timestamp_msg = 3,
       attachment_msg = None\<rparr>]"
  by (simp add: example_events_def run_def initial_sys_def initial_state_def blocked_def
      trim_def js_def is_ws_def messages_send_begin apply_chunk_eq append_text_def
      chunk_text_def append_error_def release_def)

subsection \<open>The outcome of a whole run\<close>

lemma handleSend_outcome:
  "\<not> blocked st \<Longrightarrow> sdk env (send_request st) = r \<Longrightarrow>
   handleSend env st =
     release (if stream_failed r
        then append_error (errorMsgId env) (errorMsgTime env)
               (fold (apply_chunk (botMsgId env)) (stream_chunks r)
                  (send_begin (userMsgId env) (userMsgTime env) (botMsgId env) (botMsgTime env) st))
        else fold (apply_chunk (botMsgId env)) (stream_chunks r)
               (send_begin (userMsgId env) (userMsgTime env) (botMsgId env) (botMsgTime env) st))"
  by (simp add: handleSend_unblocked at_stream_end_def)

lemma messages_handleSend:
  "\<not> blocked st \<Longrightarrow>
   messages (handleSend env st) =
     map (append_text (botMsgId env) (concat (map chunk_text (stream_chunks (sdk env (send_request st))))))
       (messages st @
        [\<lparr>id_msg = userMsgId env, role_msg = user, text_msg = trim (input st),
          timestamp_msg = userMsgTime env, attachment_msg = attachment st\<rparr>,
         \<lparr>id_msg = botMsgId env, role_msg = model, text_msg = [],
          timestamp_msg = botMsgTime env, attachment_msg = None\<rparr>]) @
     (if stream_failed (sdk env (send_request st))
      then [\<lparr>id_msg = errorMsgId env, role_msg = model, text_msg = ERROR_TEXT,
             timestamp_msg = errorMsgTime env, attachment_msg = None\<rparr>]
      else [])"
  by (simp add: handleSend_unblocked at_stream_end_def fold_apply_chunk_eq messages_send_begin
      release_def append_error_def)

lemma user_message_handleSend:
  assumes "\<not> blocked st"
  shows "length (messages st) < length (messages (handleSend env st)) \<and>
     id_msg (messages (handleSend env st) ! length (messages st)) = userMsgId env \<and>
     role_msg (messages (handleSend env st) ! length (messages st)) = user \<and>
     attachment_msg (messages (handleSend env st) ! length (messages st)) = attachment st \<and>
     (botMsgId env \<noteq> userMsgId env \<longrightarrow>
        messages (handleSend env st) ! length (messages st) =
          \<lparr>id_msg = userMsgId env, role_msg = user, text_msg = trim (input st),
           timestamp_msg = userMsgTime env, attachment_msg = attachment st\<rparr>)"
  by (simp add: messages_handleSend [OF assms] nth_append append_text_def)

lemma attachment_not_blocked: "attachment st = Some a \<Longrightarrow> \<not> isLoading st \<Longrightarrow> \<not> blocked st"
  by (simp add: blocked_def)

lemma example_attachment_only_fields:
  "messages example_attachment_only = [] \<and> attachment example_attachment_only = Some example_image \<and>
   \<not> isLoading example_attachment_only \<and> trim (input example_attachment_only) = []"
  by (simp add: example_attachment_only_def run_def initial_sys_def initial_state_def
      trim_def js_def is_ws_def)

lemma example_second_turn_fields:
  "messages example_second_turn =
     [\<lparr>id_msg = js ''u1'', role_msg = user, text_msg = js ''Hi'', timestamp_msg = 1,
       attachment_msg = Some example_image\<rparr>,
      \<lparr>id_msg = js ''b1'', role_msg = model, text_msg = js ''Hello'', timestamp_msg = 2,
       attachment_msg = None\<rparr>] \<and>
   \<not> blocked example_second_turn"
  by (simp add: example_second_turn_def run_def initial_sys_def initial_state_def blocked_def
      trim_def js_def is_ws_def messages_send_begin apply_chunk_eq append_text_def chunk_text_def
      release_def send_begin_def)

subsection \<open>The user's turns along a run\<close>

lemma user_view_append_text:
  "bid \<notin> id_msg ` {m \<in> set ms. role_msg m = user} \<Longrightarrow>
   map (\<lambda>m. (text_msg m, attachment_msg m))
     (filter (\<lambda>m. role_msg m = user) (map (append_text bid t) ms)) =
   map (\<lambda>m. (text_msg m, attachment_msg m)) (filter (\<lambda>m. role_msg m = user) ms)"
  by (induction ms) (auto simp: append_text_def)

lemma user_view_apply_chunk:
  "bid \<notin> set (user_ids st) \<Longrightarrow> user_view (apply_chunk bid c st) = user_view st"
  by (simp add: user_view_def apply_chunk_eq user_view_append_text user_ids_def)

lemma isLoading_apply_chunk: "isLoading (apply_chunk bid c st) = isLoading st"
  by (simp add: apply_chunk_eq)

lemma session_ok_step:
  assumes "session_ok s" and "unshared e s"
  shows "session_ok (step e s)"
proof (cases e)
  case (Send uid utime bid btime)
  show ?thesis
  proof (cases "blocked (app s)")
    case True
    with assms Send show ?thesis by simp
  next
    case False
    with assms(2) Send have f: "bid \<noteq> uid" "bid \<notin> set (user_ids (app s))"
      by simp_all
    have "user_ids (send_begin uid utime bid btime (app s)) = user_ids (app s) @ [uid]"
      by (simp add: user_ids_def messages_send_begin)
    moreover have "isLoading (send_begin uid utime bid btime (app s))"
      by (simp add: send_begin_def Let_def)
    ultimately show ?thesis
      using False f by (simp add: Send session_ok_def)
  qed
next
  case (Delta c)
  with assms(1) show ?thesis
    by (auto simp: session_ok_def user_ids_apply_chunk isLoading_apply_chunk split: option.splits)
next
  case NewChat
  with assms(1) show ?thesis
    by (simp add: session_ok_def startNewChat_def user_ids_def)
qed (use assms(1) in \<open>auto simp: session_ok_def user_ids_def split: option.splits\<close>)

lemma user_view_step:
  assumes "session_ok s"
  shows "user_view (app (step e s)) = sent_step e s (user_view (app s))"
proof (cases e)
  case (Send uid utime bid btime)
  then show ?thesis
    by (simp add: user_view_def messages_send_begin)
next
  case (Delta c)
  show ?thesis
  proof (cases "inflight s")
    case None
    with Delta show ?thesis by simp
  next
    case (Some bid)
    with assms have "bid \<notin> set (user_ids (app s))"
      by (simp add: session_ok_def)
    with Some Delta show ?thesis
      by (simp add: user_view_apply_chunk)
  qed
qed (auto simp: user_view_def startNewChat_def append_error_def release_def split: option.splits)

lemma user_view_run:
  "session_ok s \<Longrightarrow> placeholder_unshared evs s \<Longrightarrow>
   user_view (app (run evs s)) = sent_inputs evs s (user_view (app s))"
proof (induction evs arbitrary: s)
  case Nil
  then show ?case by (simp add: run_def)
next
  case (Cons e es)
  from Cons.prems have u: "unshared e s" and r: "placeholder_unshared es (step e s)"
    by simp_all
  from Cons.prems(1) u have ok: "session_ok (step e s)"
    by (rule session_ok_step)
  from ok r have "user_view (app (run es (step e s))) =
      sent_inputs es (step e s) (user_view (app (step e s)))"
    by (rule Cons.IH)
  with Cons.prems(1) show ?case
    by (simp add: run_def user_view_step)
qed

lemma user_view_handleSend:
  assumes "\<not> blocked st" and "botMsgId env \<noteq> userMsgId env"
    and "botMsgId env \<notin> set (user_ids st)"
  shows "user_view (handleSend env st) = user_view st @ [(trim (input st), attachment st)]"
proof -
  define ms where "ms = messages st @
        [\<lparr>id_msg = userMsgId env, role_msg = user, text_msg = trim (input st),
          timestamp_msg = userMsgTime env, attachment_msg = attachment st\<rparr>,
         \<lparr>id_msg = botMsgId env, role_msg = model, text_msg = [],
          timestamp_msg = botMsgTime env, attachment_msg = None\<rparr>]"
  define t where "t = concat (map chunk_text (stream_chunks (sdk env (send_request st))))"
  define err where "err = (if stream_failed (sdk env (send_request st))
      then [\<lparr>id_msg = errorMsgId env, role_msg = model, text_msg = ERROR_TEXT,
             timestamp_msg = errorMsgTime env, attachment_msg = None\<rparr>]
      else [])"
  have m: "messages (handleSend env st) = map (append_text (botMsgId env) t) ms @ err"
    unfolding ms_def t_def err_def by (rule messages_handleSend [OF assms(1)])
  have e: "filter (\<lambda>m. role_msg m = user) err = []"
    by (simp add: err_def)
  from assms(2,3) have fresh: "botMsgId env \<notin> id_msg ` {m \<in> set ms. role_msg m = user}"
    by (auto simp: user_ids_def ms_def)
  have "user_view (handleSend env st) =
      map (\<lambda>m. (text_msg m, attachment_msg m))
        (filter (\<lambda>m. role_msg m = user) (map (append_text (botMsgId env) t) ms))"
    by (simp add: user_view_def m e)
  also have "\<dots> = map (\<lambda>m. (text_msg m, attachment_msg m)) (filter (\<lambda>m. role_msg m = user) ms)"
    using fresh by (rule user_view_append_text)
  also have "\<dots> = user_view st @ [(trim (input st), attachment st)]"
    by (simp add: ms_def user_view_def)
  finally show ?thesis .
qed

lemma example_padded_run:
  "placeholder_unshared example_padded_events initial_sys \<and>
   sent_inputs example_padded_events initial_sys [] = [(js ''Hi'', None)]"
  by (simp add: example_padded_events_def initial_sys_def initial_state_def blocked_def
      trim_def js_def is_ws_def user_ids_def messages_send_begin apply_chunk_eq
      id_append_text role_append_text send_begin_def release_def)

section \<open>The busy flag\<close>

text \<open>
  C2.  A run of \<open>handleSend\<close> that passes the guard at its entry ends with the busy flag
  \<open>isLoading\<close> false, whatever the stream does: it completes, it fails to open, or it
  throws after some chunks.
\<close>

theorem handleSend_releases:
  "\<not> blocked st \<Longrightarrow> isLoading (handleSend env st) = False"
  by (simp add: handleSend_def release_def Let_def)

theorem handleSend_releases_witness:
  "\<not> blocked (typed ''Hi'') \<and>
   isLoading (handleSend (example_env (Opened [Some (js ''He'')] Raised)) (typed ''Hi'')) = False"
proof -
  have nb: "\<not> blocked (typed ''Hi'')"
    by (rule typed_Hi_not_blocked)
  show ?thesis
    using nb handleSend_releases [OF nb, of "example_env (Opened [Some (js ''He'')] Raised)"]
    by simp
qed

text \<open>
  C5.  While the busy flag is set, or when the trimmed input is empty and no attachment
  is pending, \<open>handleSend\<close> returns at once: the whole state is what it was.
\<close>

theorem handleSend_blocked_noop:
  "isLoading st \<or> (trim (input st) = [] \<and> attachment st = None) \<Longrightarrow> handleSend env st = st"
  by (auto simp add: handleSend_def blocked_def)

theorem handleSend_blocked_noop_witness:
  "(isLoading ((typed ''Hi'')\<lparr>isLoading := True\<rparr>) \<or>
      (trim (input ((typed ''Hi'')\<lparr>isLoading := True\<rparr>)) = [] \<and>
       attachment ((typed ''Hi'')\<lparr>isLoading := True\<rparr>) = None)) \<and>
   handleSend (example_env (Opened [Some (js ''He'')] Completed)) ((typed ''Hi'')\<lparr>isLoading := True\<rparr>) =
     (typed ''Hi'')\<lparr>isLoading := True\<rparr>"
proof -
  have busy: "isLoading ((typed ''Hi'')\<lparr>isLoading := True\<rparr>) \<or>
      (trim (input ((typed ''Hi'')\<lparr>isLoading := True\<rparr>)) = [] \<and>
       attachment ((typed ''Hi'')\<lparr>isLoading := True\<rparr>) = None)"
    by simp
  show ?thesis
    using busy
      handleSend_blocked_noop [OF busy, of "example_env (Opened [Some (js ''He'')] Completed)"]
    by simp
qed

section \<open>A new conversation\<close>

text \<open>
  C4, as the code has it.  \<open>startNewChat\<close> empties the store and the input and unsets the
  pending attachment; it does not write the busy flag, which keeps its value.
\<close>

theorem startNewChat_resets:
  "messages (startNewChat st) = [] \<and> input (startNewChat st) = [] \<and>
   attachment (startNewChat st) = None \<and> isLoading (startNewChat st) = isLoading st \<and>
   startNewChat st = st\<lparr>messages := [], input := [], attachment := None\<rparr>"
  by (simp add: startNewChat_def)

text \<open>C4 as stated fails from a state whose busy flag is set: the flag stays set.\<close>

theorem startNewChat_busy_counterexample:
  "\<not> (messages (startNewChat (initial_state\<lparr>isLoading := True\<rparr>)) = [] \<and>
      attachment (startNewChat (initial_state\<lparr>isLoading := True\<rparr>)) = None \<and>
      isLoading (startNewChat (initial_state\<lparr>isLoading := True\<rparr>)) = False)"
  by (simp add: startNewChat_def)

section \<open>Streaming\<close>

text \<open>
  C3.  Feeding the fragments one by one leaves the state that feeding their concatenation
  as one fragment leaves; every message with the placeholder's id then holds its former
  text followed by all the fragments in order; and \<open>["Hel", "lo"]\<close> gives what
  \<open>["Hello"]\<close> gives.
\<close>

theorem streaming_accumulates:
  "fold (apply_chunk bid) (map Some frags) st = apply_chunk bid (Some (concat frags)) st \<and>
   (\<forall>i < length (messages st). id_msg (messages st ! i) = bid \<longrightarrow>
      text_msg (messages (fold (apply_chunk bid) (map Some frags) st) ! i) =
        text_msg (messages st ! i) @ concat frags) \<and>
   fold (apply_chunk bid) [Some (js ''Hel''), Some (js ''lo'')] st =
     fold (apply_chunk bid) [Some (js ''Hello'')] st"
proof -
  have ct: "map chunk_text (map Some frags) = frags"
    by (induction frags) (simp_all add: chunk_text_Some)
  have a: "fold (apply_chunk bid) (map Some frags) st = apply_chunk bid (Some (concat frags)) st"
    by (rule fold_fragments)
  have b: "\<forall>i < length (messages st). id_msg (messages st ! i) = bid \<longrightarrow>
      text_msg (messages (fold (apply_chunk bid) (map Some frags) st) ! i) =
        text_msg (messages st ! i) @ concat frags"
    by (simp only: fold_apply_chunk_eq ct) (simp add: append_text_def)
  have c: "fold (apply_chunk bid) [Some (js ''Hel''), Some (js ''lo'')] st =
     fold (apply_chunk bid) [Some (js ''Hello'')] st"
    using fold_fragments [of bid "[js ''Hel'', js ''lo'']" st]
    by (simp add: js_def)
  from a b c show ?thesis by blast
qed

theorem streaming_accumulates_witness:
  "1 < length (messages example_streaming) \<and>
   id_msg (messages example_streaming ! 1) = js ''b1'' \<and>
   text_msg (messages (fold (apply_chunk (js ''b1'')) (map Some [js ''Hel'', js ''lo''])
     example_streaming) ! 1) = js ''Hello''"
proof -
  have l: "1 < length (messages example_streaming)"
    by (simp add: messages_example_streaming)
  have i: "id_msg (messages example_streaming ! 1) = js ''b1''"
    by (simp add: messages_example_streaming)
  have t: "text_msg (messages example_streaming ! 1) @ concat [js ''Hel'', js ''lo''] = js ''Hello''"
    by (simp add: messages_example_streaming js_def)
  from streaming_accumulates [of "js ''b1''" "[js ''Hel'', js ''lo'']" example_streaming] l i
  have "text_msg (messages (fold (apply_chunk (js ''b1'')) (map Some [js ''Hel'', js ''lo''])
     example_streaming) ! 1) = text_msg (messages example_streaming ! 1) @ concat [js ''Hel'', js ''lo'']"
    by blast
  with l i t show ?thesis by simp
qed

text \<open>
  C10.  One chunk keeps the length and the order of the store and the id, role, timestamp
  and attachment of every message; a message with another id than the placeholder's is
  untouched, one with that id gets the chunk's text appended; nothing but \<open>messages\<close>
  changes, so the busy flag stays; a chunk whose text is absent or empty changes nothing.
\<close>

theorem apply_chunk_frame:
  "length (messages (apply_chunk bid c st)) = length (messages st) \<and>
   (\<forall>i < length (messages st).
      id_msg (messages (apply_chunk bid c st) ! i) = id_msg (messages st ! i) \<and>
      role_msg (messages (apply_chunk bid c st) ! i) = role_msg (messages st ! i) \<and>
      timestamp_msg (messages (apply_chunk bid c st) ! i) = timestamp_msg (messages st ! i) \<and>
      attachment_msg (messages (apply_chunk bid c st) ! i) = attachment_msg (messages st ! i) \<and>
      (id_msg (messages st ! i) \<noteq> bid \<longrightarrow>
         messages (apply_chunk bid c st) ! i = messages st ! i) \<and>
      (id_msg (messages st ! i) = bid \<longrightarrow>
         messages (apply_chunk bid c st) ! i =
           (messages st ! i)\<lparr>text_msg := text_msg (messages st ! i) @
              (case c of None \<Rightarrow> [] | Some t \<Rightarrow> t)\<rparr>)) \<and>
   apply_chunk bid c st = st\<lparr>messages := messages (apply_chunk bid c st)\<rparr> \<and>
   isLoading (apply_chunk bid c st) = isLoading st \<and>
   (c = None \<or> c = Some [] \<longrightarrow> apply_chunk bid c st = st)"
proof -
  have e: "c = None \<or> c = Some [] \<longrightarrow> apply_chunk bid c st = st"
    by (auto simp: apply_chunk_def)
  show ?thesis
    using e by (simp add: apply_chunk_eq append_text_def chunk_text_def)
qed

theorem apply_chunk_frame_witness:
  "0 < length (messages example_streaming) \<and>
   id_msg (messages example_streaming ! 0) \<noteq> js ''b1'' \<and>
   messages (apply_chunk (js ''b1'') (Some (js ''Hel'')) example_streaming) ! 0 =
     messages example_streaming ! 0 \<and>
   apply_chunk (js ''b1'') (Some []) example_streaming = example_streaming"
proof -
  have l: "0 < length (messages example_streaming)"
    by (simp add: messages_example_streaming)
  have i: "id_msg (messages example_streaming ! 0) \<noteq> js ''b1''"
    by (simp add: messages_example_streaming js_def)
  from apply_chunk_frame [of "js ''b1''" "Some (js ''Hel'')" example_streaming] l i
  have a: "messages (apply_chunk (js ''b1'') (Some (js ''Hel'')) example_streaming) ! 0 =
     messages example_streaming ! 0"
    by blast
  from apply_chunk_frame [of "js ''b1''" "Some []" example_streaming]
  have b: "apply_chunk (js ''b1'') (Some []) example_streaming = example_streaming"
    by blast
  from l i a b show ?thesis by blast
qed

section \<open>Failure of the stream\<close>

text \<open>
  C1.  When the run passed the guard and its stream failed, on opening or after some
  chunks, the store at the end is the store as the \<open>try\<close> block left it, followed by one
  assistant message with the fixed notice: one message more, and the placeholder (at the
  second position after the former store) as it was.
\<close>

theorem handleSend_failure:
  "\<not> blocked st \<Longrightarrow> stream_failed (sdk env (send_request st)) \<Longrightarrow>
   messages (handleSend env st) =
     messages (at_stream_end env st) @
     [\<lparr>id_msg = errorMsgId env, role_msg = model,
       text_msg = js (''I'' @ [CHR 0x27] @ ''m having trouble connecting right now. Please try again.''),
       timestamp_msg = errorMsgTime env, attachment_msg = None\<rparr>] \<and>
   length (messages (handleSend env st)) = length (messages (at_stream_end env st)) + 1 \<and>
   length (messages (at_stream_end env st)) = length (messages st) + 2 \<and>
   messages (handleSend env st) ! Suc (length (messages st)) =
     messages (at_stream_end env st) ! Suc (length (messages st))"
proof -
  assume nb: "\<not> blocked st" and f: "stream_failed (sdk env (send_request st))"
  have len: "length (messages (at_stream_end env st)) = length (messages st) + 2"
    by (simp add: at_stream_end_def fold_apply_chunk_eq messages_send_begin)
  have m: "messages (handleSend env st) =
     messages (at_stream_end env st) @
     [\<lparr>id_msg = errorMsgId env, role_msg = model,
       text_msg = js (''I'' @ [CHR 0x27] @ ''m having trouble connecting right now. Please try again.''),
       timestamp_msg = errorMsgTime env, attachment_msg = None\<rparr>]"
    using nb f by (simp add: handleSend_unblocked release_def append_error_def ERROR_TEXT_def)
  show ?thesis
    by (simp add: m len nth_append)
qed

theorem handleSend_failure_witness:
  "\<not> blocked (typed ''Hi'') \<and>
   stream_failed (sdk (example_env example_partial) (send_request (typed ''Hi''))) \<and>
   map text_msg (messages (at_stream_end (example_env example_partial) (typed ''Hi''))) =
     [js ''Hi'', js ''Hel''] \<and>
   map text_msg (messages (handleSend (example_env example_partial) (typed ''Hi''))) =
     [js ''Hi'', js ''Hel'',
      js (''I'' @ [CHR 0x27] @ ''m having trouble connecting right now. Please try again.'')]"
proof -
  have nb: "\<not> blocked (typed ''Hi'')"
    by (rule typed_Hi_not_blocked)
  have f: "stream_failed (sdk (example_env example_partial) (send_request (typed ''Hi'')))"
    by (simp add: example_env_def example_partial_def stream_failed_def)
  have e: "map text_msg (messages (at_stream_end (example_env example_partial) (typed ''Hi''))) =
     [js ''Hi'', js ''Hel'']"
    by (simp add: at_stream_end_def example_env_def example_partial_def stream_chunks_def
        send_begin_def apply_chunk_def typed_def initial_state_def trim_def js_def is_ws_def)
  show ?thesis
    using nb f e handleSend_failure [OF nb f] by simp
qed

section \<open>The request\<close>

text \<open>
  C6.  When an attachment is pending and no send is in flight, \<open>handleSend\<close> passes the
  guard whatever the input.  Its prologue appends the user message with the trimmed input
  as text and with the attachment, and then the placeholder; at the end of the run that
  message still has its id, role and attachment, and its text too (empty when the trimmed
  input is empty) unless the placeholder got the same id.  The run is determined by what
  the client library answers to one request, and the message of that request is the
  inline-data part followed by the text part, so every part with inline data stands
  before every part with text.
\<close>

theorem send_with_attachment:
  "attachment st = Some a \<Longrightarrow> \<not> isLoading st \<Longrightarrow>
   \<not> blocked st \<and>
   messages (app (step (Send (userMsgId env) (userMsgTime env) (botMsgId env) (botMsgTime env))
       \<lparr>app = st, inflight = None\<rparr>)) =
     messages st @
     [\<lparr>id_msg = userMsgId env, role_msg = user, text_msg = trim (input st),
       timestamp_msg = userMsgTime env, attachment_msg = Some a\<rparr>,
      \<lparr>id_msg = botMsgId env, role_msg = model, text_msg = [],
       timestamp_msg = botMsgTime env, attachment_msg = None\<rparr>] \<and>
   length (messages st) < length (messages (handleSend env st)) \<and>
   id_msg (messages (handleSend env st) ! length (messages st)) = userMsgId env \<and>
   role_msg (messages (handleSend env st) ! length (messages st)) = user \<and>
   attachment_msg (messages (handleSend env st) ! length (messages st)) = Some a \<and>
   (botMsgId env \<noteq> userMsgId env \<longrightarrow>
      text_msg (messages (handleSend env st) ! length (messages st)) = trim (input st)) \<and>
   (botMsgId env \<noteq> userMsgId env \<and> trim (input st) = [] \<longrightarrow>
      text_msg (messages (handleSend env st) ! length (messages st)) = []) \<and>
   (\<forall>r. sdk env (send_request st) = r \<longrightarrow>
      handleSend env st =
        release (if stream_failed r
          then append_error (errorMsgId env) (errorMsgTime env)
                 (fold (apply_chunk (botMsgId env)) (stream_chunks r)
                    (send_begin (userMsgId env) (userMsgTime env) (botMsgId env) (botMsgTime env) st))
          else fold (apply_chunk (botMsgId env)) (stream_chunks r)
                 (send_begin (userMsgId env) (userMsgTime env) (botMsgId env) (botMsgTime env) st))) \<and>
   message (send_request st) =
     Parts [\<lparr>text_part = None, inlineData = Some a\<rparr>,
            \<lparr>text_part = Some (trim (input st)), inlineData = None\<rparr>] \<and>
   (\<forall>ps i j. message (send_request st) = Parts ps \<longrightarrow> i < length ps \<longrightarrow> j < length ps \<longrightarrow>
      inlineData (ps ! i) \<noteq> None \<longrightarrow> text_part (ps ! j) \<noteq> None \<longrightarrow> i < j)"
proof -
  assume a: "attachment st = Some a" and l: "\<not> isLoading st"
  from a l have nb: "\<not> blocked st"
    by (rule attachment_not_blocked)
  have s: "messages (app (step (Send (userMsgId env) (userMsgTime env) (botMsgId env) (botMsgTime env))
       \<lparr>app = st, inflight = None\<rparr>)) =
     messages st @
     [\<lparr>id_msg = userMsgId env, role_msg = user, text_msg = trim (input st),
       timestamp_msg = userMsgTime env, attachment_msg = Some a\<rparr>,
      \<lparr>id_msg = botMsgId env, role_msg = model, text_msg = [],
       timestamp_msg = botMsgTime env, attachment_msg = None\<rparr>]"
    using nb a by (simp add: messages_send_begin)
  note u = user_message_handleSend [OF nb, of env]
  have u1: "length (messages st) < length (messages (handleSend env st))"
    and u2: "id_msg (messages (handleSend env st) ! length (messages st)) = userMsgId env"
    and u3: "role_msg (messages (handleSend env st) ! length (messages st)) = user"
    and u4: "attachment_msg (messages (handleSend env st) ! length (messages st)) = Some a"
    using u a by simp_all
  have u5: "botMsgId env \<noteq> userMsgId env \<longrightarrow>
      text_msg (messages (handleSend env st) ! length (messages st)) = trim (input st)"
    using u by auto
  then have u6: "botMsgId env \<noteq> userMsgId env \<and> trim (input st) = [] \<longrightarrow>
      text_msg (messages (handleSend env st) ! length (messages st)) = []"
    by simp
  have h: "\<forall>r. sdk env (send_request st) = r \<longrightarrow>
      handleSend env st =
        release (if stream_failed r
          then append_error (errorMsgId env) (errorMsgTime env)
                 (fold (apply_chunk (botMsgId env)) (stream_chunks r)
                    (send_begin (userMsgId env) (userMsgTime env) (botMsgId env) (botMsgTime env) st))
          else fold (apply_chunk (botMsgId env)) (stream_chunks r)
                 (send_begin (userMsgId env) (userMsgTime env) (botMsgId env) (botMsgTime env) st))"
    using handleSend_outcome [OF nb] by blast
  have m: "message (send_request st) =
     Parts [\<lparr>text_part = None, inlineData = Some a\<rparr>,
            \<lparr>text_part = Some (trim (input st)), inlineData = None\<rparr>]"
    using a by (simp add: send_request_def gemini_request_def messageContent_def)
  have o: "\<forall>ps i j. message (send_request st) = Parts ps \<longrightarrow> i < length ps \<longrightarrow> j < length ps \<longrightarrow>
      inlineData (ps ! i) \<noteq> None \<longrightarrow> text_part (ps ! j) \<noteq> None \<longrightarrow> i < j"
    by (auto simp add: m less_Suc_eq nth_Cons')
  from nb s u1 u2 u3 u4 u5 u6 h m o show ?thesis by blast
qed

theorem send_with_attachment_witness:
  "attachment example_attachment_only = Some example_image \<and>
   \<not> isLoading example_attachment_only \<and>
   \<not> blocked example_attachment_only \<and>
   botMsgId (example_env (Opened [Some (js ''He'')] Completed)) \<noteq>
     userMsgId (example_env (Opened [Some (js ''He'')] Completed)) \<and>
   trim (input example_attachment_only) = [] \<and>
   attachment_msg (messages (handleSend (example_env (Opened [Some (js ''He'')] Completed))
      example_attachment_only) ! 0) = Some example_image \<and>
   text_msg (messages (handleSend (example_env (Opened [Some (js ''He'')] Completed))
      example_attachment_only) ! 0) = [] \<and>
   message (send_request example_attachment_only) =
     Parts [\<lparr>text_part = None, inlineData = Some example_image\<rparr>,
            \<lparr>text_part = Some [], inlineData = None\<rparr>]"
proof -
  let ?env = "example_env (Opened [Some (js ''He'')] Completed)"
  let ?st = "example_attachment_only"
  have a: "attachment ?st = Some example_image"
    and l: "\<not> isLoading ?st"
    and t: "trim (input ?st) = []"
    and n: "length (messages ?st) = 0"
    by (simp_all add: example_attachment_only_fields)
  have i: "botMsgId ?env \<noteq> userMsgId ?env"
    by (simp add: example_env_def js_def)
  note w = send_with_attachment [OF a l, of ?env]
  from w have nb: "\<not> blocked ?st"
    by (rule conjunct1)
  from w have "attachment_msg (messages (handleSend ?env ?st) ! length (messages ?st)) =
      Some example_image"
    by blast
  with n have att: "attachment_msg (messages (handleSend ?env ?st) ! 0) = Some example_image"
    by simp
  from w i t have "text_msg (messages (handleSend ?env ?st) ! length (messages ?st)) = []"
    by blast
  with n have tx0: "text_msg (messages (handleSend ?env ?st) ! 0) = []"
    by simp
  from w have "message (send_request ?st) =
     Parts [\<lparr>text_part = None, inlineData = Some example_image\<rparr>,
            \<lparr>text_part = Some (trim (input ?st)), inlineData = None\<rparr>]"
    by blast
  with t have msg: "message (send_request ?st) =
     Parts [\<lparr>text_part = None, inlineData = Some example_image\<rparr>,
            \<lparr>text_part = Some [], inlineData = None\<rparr>]"
    by simp
  from a l nb i t att tx0 msg show ?thesis by blast
qed

text \<open>
  C7.  A run of \<open>handleSend\<close> that passes the guard is determined by what the client
  library answers to one request.  The history of that request has one entry for every
  message of the store as it was when \<open>handleSend\<close> was called, in order, with the
  message's role; the two messages the run appends are not in it.  The parts of an entry
  are the inline-data part if the message has an attachment, and then the text part if
  the message's text is not empty.
\<close>

theorem request_history:
  "\<not> blocked st \<Longrightarrow>
   (\<forall>r. sdk env (send_request st) = r \<longrightarrow>
      handleSend env st =
        release (if stream_failed r
          then append_error (errorMsgId env) (errorMsgTime env)
                 (fold (apply_chunk (botMsgId env)) (stream_chunks r)
                    (send_begin (userMsgId env) (userMsgTime env) (botMsgId env) (botMsgTime env) st))
          else fold (apply_chunk (botMsgId env)) (stream_chunks r)
                 (send_begin (userMsgId env) (userMsgTime env) (botMsgId env) (botMsgTime env) st))) \<and>
   length (history (send_request st)) = length (messages st) \<and>
   length (messages st) + 2 \<le> length (messages (handleSend env st)) \<and>
   (\<forall>i < length (messages st).
      role (history (send_request st) ! i) = role_msg (messages st ! i) \<and>
      parts (history (send_request st) ! i) =
        (case attachment_msg (messages st ! i) of
           None \<Rightarrow> []
         | Some a \<Rightarrow> [\<lparr>text_part = None, inlineData = Some a\<rparr>]) @
        (if text_msg (messages st ! i) = [] then []
         else [\<lparr>text_part = Some (text_msg (messages st ! i)), inlineData = None\<rparr>]))"
proof -
  assume nb: "\<not> blocked st"
  have h: "\<forall>r. sdk env (send_request st) = r \<longrightarrow>
      handleSend env st =
        release (if stream_failed r
          then append_error (errorMsgId env) (errorMsgTime env)
                 (fold (apply_chunk (botMsgId env)) (stream_chunks r)
                    (send_begin (userMsgId env) (userMsgTime env) (botMsgId env) (botMsgTime env) st))
          else fold (apply_chunk (botMsgId env)) (stream_chunks r)
                 (send_begin (userMsgId env) (userMsgTime env) (botMsgId env) (botMsgTime env) st))"
    using handleSend_outcome [OF nb] by blast
  have n: "length (messages st) + 2 \<le> length (messages (handleSend env st))"
    by (simp add: messages_handleSend [OF nb])
  have p: "length (history (send_request st)) = length (messages st) \<and>
   (\<forall>i < length (messages st).
      role (history (send_request st) ! i) = role_msg (messages st ! i) \<and>
      parts (history (send_request st) ! i) =
        (case attachment_msg (messages st ! i) of
           None \<Rightarrow> []
         | Some a \<Rightarrow> [\<lparr>text_part = None, inlineData = Some a\<rparr>]) @
        (if text_msg (messages st ! i) = [] then []
         else [\<lparr>text_part = Some (text_msg (messages st ! i)), inlineData = None\<rparr>]))"
    by (simp add: send_request_def gemini_request_def history_entry_def)
  from h n p show ?thesis by blast
qed

theorem request_history_witness:
  "\<not> blocked example_second_turn \<and>
   length (history (send_request example_second_turn)) = 2 \<and>
   history (send_request example_second_turn) ! 0 =
     \<lparr>role = user,
      parts = [\<lparr>text_part = None, inlineData = Some example_image\<rparr>,
               \<lparr>text_part = Some (js ''Hi''), inlineData = None\<rparr>]\<rparr> \<and>
   history (send_request example_second_turn) ! 1 =
     \<lparr>role = model, parts = [\<lparr>text_part = Some (js ''Hello''), inlineData = None\<rparr>]\<rparr> \<and>
   4 \<le> length (messages (handleSend (example_env (Opened [Some (js ''He'')] Completed))
                 example_second_turn))"
proof -
  have nb: "\<not> blocked example_second_turn"
    by (simp add: example_second_turn_fields)
  have m: "messages example_second_turn =
     [\<lparr>id_msg = js ''u1'', role_msg = user, text_msg = js ''Hi'', timestamp_msg = 1,
       attachment_msg = Some example_image\<rparr>,
      \<lparr>id_msg = js ''b1'', role_msg = model, text_msg = js ''Hello'', timestamp_msg = 2,
       attachment_msg = None\<rparr>]"
    by (simp add: example_second_turn_fields)
  have t: "js ''Hi'' \<noteq> []" "js ''Hello'' \<noteq> []"
    by (simp_all add: js_def)
  note r = request_history [OF nb, of "example_env (Opened [Some (js ''He'')] Completed)"]
  from r have "length (history (send_request example_second_turn)) =
      length (messages example_second_turn)"
    by blast
  then have len: "length (history (send_request example_second_turn)) = 2"
    by (simp add: m)
  from r have "length (messages example_second_turn) + 2 \<le>
      length (messages (handleSend (example_env (Opened [Some (js ''He'')] Completed))
                 example_second_turn))"
    by blast
  then have n: "4 \<le> length (messages (handleSend (example_env (Opened [Some (js ''He'')] Completed))
                 example_second_turn))"
    by (simp add: m)
  from r have e: "\<forall>i<length (messages example_second_turn).
      role (history (send_request example_second_turn) ! i) =
        role_msg (messages example_second_turn ! i) \<and>
      parts (history (send_request example_second_turn) ! i) =
        (case attachment_msg (messages example_second_turn ! i) of
           None \<Rightarrow> []
         | Some a \<Rightarrow> [\<lparr>text_part = None, inlineData = Some a\<rparr>]) @
        (if text_msg (messages example_second_turn ! i) = [] then []
         else [\<lparr>text_part = Some (text_msg (messages example_second_turn ! i)), inlineData = None\<rparr>])"
    by blast
  from e [rule_format, of 0] t
  have e0: "history (send_request example_second_turn) ! 0 =
     \<lparr>role = user,
      parts = [\<lparr>text_part = None, inlineData = Some example_image\<rparr>,
               \<lparr>text_part = Some (js ''Hi''), inlineData = None\<rparr>]\<rparr>"
    by (simp add: m)
  from e [rule_format, of 1] t
  have e1: "history (send_request example_second_turn) ! 1 =
     \<lparr>role = model, parts = [\<lparr>text_part = Some (js ''Hello''), inlineData = None\<rparr>]\<rparr>"
    by (simp add: m)
  from nb len e0 e1 n show ?thesis by blast
qed

section \<open>Invariants of the store\<close>

text \<open>
  C8, as the code has it.  \<open>generateId()\<close> is a random draw and nothing compares its
  result with the store.  When every id drawn along a run differs from the ids in the store
  at that moment and from the other id drawn by the same event, a store with pairwise
  distinct ids keeps pairwise distinct ids: chunks keep every id, the new conversation
  empties the store, and the three appends add drawn ids only.
\<close>

theorem ids_distinct_when_fresh:
  "distinct (ids (app s)) \<Longrightarrow> fresh_ids evs s \<Longrightarrow> distinct (ids (app (run evs s)))"
proof (induction evs arbitrary: s)
  case Nil
  then show ?case by (simp add: run_def)
next
  case (Cons e es)
  from Cons.prems have "distinct (ids (app (step e s)))"
    by (auto simp: ids_step)
  moreover from Cons.prems have "fresh_ids es (step e s)"
    by simp
  ultimately have "distinct (ids (app (run es (step e s))))"
    by (rule Cons.IH)
  then show ?case by (simp add: run_def)
qed

theorem ids_distinct_when_fresh_witness:
  "distinct (ids (app initial_sys)) \<and> fresh_ids example_events initial_sys \<and>
   distinct (ids (app (run example_events initial_sys)))"
proof -
  have d: "distinct (ids (app initial_sys))"
    by (simp add: initial_sys_def initial_state_def ids_def)
  have f: "fresh_ids example_events initial_sys"
    by (simp add: example_events_def initial_sys_def initial_state_def blocked_def
        trim_def js_def is_ws_def ids_def messages_send_begin apply_chunk_eq id_append_text)
  show ?thesis
    using d f ids_distinct_when_fresh [OF d f] by simp
qed

text \<open>
  C8 as stated fails: a run in which \<open>generateId()\<close> returns the same string for the
  user message and for the placeholder leaves two messages with one id.
\<close>

theorem ids_distinct_counterexample:
  "\<not> distinct (ids (app (run [Type (js ''Hi''), Send (js ''a'') 1 (js ''a'') 2] initial_sys)))"
  by (simp add: run_def initial_sys_def initial_state_def blocked_def trim_def js_def is_ws_def
      ids_def messages_send_begin)

text \<open>
  C9, as the code has it.  In every state reached from the fresh application, every user
  message has a non-empty text or an attachment.  In every state reached by a run in which
  no placeholder id is the id of a user message, the texts and attachments of the user
  messages are exactly the trimmed inputs and pending attachments of the sends since the
  last new conversation, so every text is free of white space at both ends: a chunk is
  appended to every message that has the placeholder's id, whatever its role.  Event by
  event: a send that passes the guard appends the trimmed input, a new conversation
  empties the store, and every other event (a chunk, a failure, the end of the stream,
  typing) leaves the user messages as they are while no waiting placeholder shares an id
  with one.  A whole run of \<open>handleSend\<close> adds exactly its trimmed input and attachment.
\<close>

theorem user_messages_invariant:
  "user_has_content (app (run evs initial_sys)) \<and>
   (placeholder_unshared evs initial_sys \<longrightarrow> user_trimmed (app (run evs initial_sys))) \<and>
   (placeholder_unshared evs initial_sys \<longrightarrow>
      user_view (app (run evs initial_sys)) = sent_inputs evs initial_sys []) \<and>
   (user_has_content (app s) \<longrightarrow> user_has_content (app (step e s))) \<and>
   (user_trimmed (app s) \<and> session_ok s \<and> unshared e s \<longrightarrow>
      user_trimmed (app (step e s)) \<and> session_ok (step e s)) \<and>
   (session_ok s \<longrightarrow> user_view (app (step e s)) = sent_step e s (user_view (app s))) \<and>
   (\<not> blocked st \<and> botMsgId env \<noteq> userMsgId env \<and> botMsgId env \<notin> set (user_ids st) \<longrightarrow>
      user_view (handleSend env st) = user_view st @ [(trim (input st), attachment st)])"
proof -
  have a: "user_has_content (app (run evs initial_sys))"
    using user_has_content_run [of initial_sys evs] initial_sys_ok by blast
  have b: "placeholder_unshared evs initial_sys \<longrightarrow> user_trimmed (app (run evs initial_sys))"
    using trimmed_run [of initial_sys evs] initial_sys_ok by blast
  have v0: "user_view (app initial_sys) = []"
    by (simp add: user_view_def initial_sys_def initial_state_def)
  have b': "placeholder_unshared evs initial_sys \<longrightarrow>
      user_view (app (run evs initial_sys)) = sent_inputs evs initial_sys []"
    using user_view_run [of initial_sys evs] initial_sys_ok v0 by simp
  have c: "user_has_content (app s) \<longrightarrow> user_has_content (app (step e s))"
    using user_has_content_step [of s e] by blast
  have d: "user_trimmed (app s) \<and> session_ok s \<and> unshared e s \<longrightarrow>
      user_trimmed (app (step e s)) \<and> session_ok (step e s)"
    using trimmed_step [of s e] by blast
  have f: "session_ok s \<longrightarrow> user_view (app (step e s)) = sent_step e s (user_view (app s))"
    using user_view_step [of s e] by blast
  have g: "\<not> blocked st \<and> botMsgId env \<noteq> userMsgId env \<and> botMsgId env \<notin> set (user_ids st) \<longrightarrow>
      user_view (handleSend env st) = user_view st @ [(trim (input st), attachment st)]"
    using user_view_handleSend [of st env] by blast
  from a b b' c d f g show ?thesis by blast
qed

theorem user_messages_invariant_witness:
  "placeholder_unshared example_padded_events initial_sys \<and>
   user_has_content (app (run example_padded_events initial_sys)) \<and>
   user_trimmed (app (run example_padded_events initial_sys)) \<and>
   user_view (app (run example_padded_events initial_sys)) = [(js ''Hi'', None)]"
proof -
  have u: "placeholder_unshared example_padded_events initial_sys"
    and i: "sent_inputs example_padded_events initial_sys [] = [(js ''Hi'', None)]"
    by (simp_all add: example_padded_run)
  note w = user_messages_invariant [of example_padded_events]
  from w have a: "user_has_content (app (run example_padded_events initial_sys))"
    by (rule conjunct1)
  from w u have b: "user_trimmed (app (run example_padded_events initial_sys))"
    by blast
  from w u have "user_view (app (run example_padded_events initial_sys)) =
      sent_inputs example_padded_events initial_sys []"
    by blast
  with i have c: "user_view (app (run example_padded_events initial_sys)) = [(js ''Hi'', None)]"
    by simp
  from u a b c show ?thesis by blast
qed

text \<open>
  C9 as stated fails: when the placeholder got the id of the user message, a chunk of one
  space is appended to the user message too; its text is then \<open>Hi\<close> and a space, which is
  not the trimmed input and ends in white space.
\<close>

theorem user_trimmed_counterexample:
  "\<not> user_trimmed (app (run example_collision_events initial_sys)) \<and>
   user_view (app (run example_collision_events initial_sys)) \<noteq>
     sent_inputs example_collision_events initial_sys []"
  by (simp add: example_collision_events_def run_def initial_sys_def initial_state_def blocked_def
      trim_def js_def is_ws_def user_trimmed_def user_view_def messages_send_begin apply_chunk_eq
      append_text_def chunk_text_def send_begin_def)

end
